theory Spec2Isabelle
  imports Main "HOL-Library.Word"
begin

unbundle bit_operations_syntax

section \<open>The arbitrary signal generator channel (module asg)\<close>

text \<open>
  The module is embedded at its default parameters: one trigger line (TN = 1), samples
  of eight bits (DAT_T), a pointer magnitude of CWM = 14 bits and a pointer fraction of
  CWF = 16 bits. The pointer registers are therefore 30 bits wide, the two intermediate
  sums 31 bits, the table index 14 bits. One application of \<open>asg_step\<close> is one rising
  edge of the stream clock: every register reads the values from before the edge and all
  of them are written together. The acknowledge register of the bus is clocked by the bus
  clock, which is taken to be the same clock.
\<close>

subsection \<open>Ports and registers\<close>

text \<open>
  Modelled from the spec: the system bus interface (\<open>sys_bus_if\<close>) is declared outside
  the sources, so the widths of its address and data are not known here. Following the
  table contract of the specification (addresses are cut to the index bits of the table),
  the bus address is a number that is cut to 14 bits where it indexes the table, and the
  write data has the sample width.

  The record holds the inputs sampled at a clock edge.
\<close>

record asg_in =
  sto_rstn :: bool
  ctl_rst :: bool
  trg_i :: "1 word"
  cfg_trg :: "1 word"
  cfg_siz :: "30 word"
  cfg_stp :: "30 word"
  cfg_off :: "30 word"
  cfg_ben :: bool
  cfg_inf :: bool
  cfg_bdl :: "14 word"
  cfg_bln :: "32 word"
  cfg_bnm :: "16 word"
  bus_rstn :: bool
  bus_wen :: bool
  bus_ren :: bool
  bus_addr :: nat
  bus_wdata :: "8 word"

text \<open>The registers of the module, the sample table among them.\<close>

record asg_state =
  buf_mem :: "14 word \<Rightarrow> 8 word"
  buf_rdata :: "8 word"
  buf_raddr :: "14 word"
  bus_rdata :: "8 word"
  bus_ack :: bool
  ptr_cur :: "30 word"
  cnt_bln :: "32 word"
  cnt_bnm :: "16 word"
  sts_run :: bool
  sts_rdt :: bool
  sts_vld :: bool
  trg_o :: bool
  sto_vld :: bool

subsection \<open>Combinational signals\<close>

text \<open>\<^verbatim>\<open>assign trg = |(trg_i & cfg_trg);\<close>\<close>

definition trg :: "asg_in \<Rightarrow> bool" where
  "trg i = (trg_i i AND cfg_trg i \<noteq> 0)"

text \<open>\<^verbatim>\<open>assign sts_rpt = sts_run & ~|cnt_bln;\<close>\<close>

definition sts_rpt :: "asg_state \<Rightarrow> bool" where
  "sts_rpt s = (sts_run s \<and> cnt_bln s = 0)"

text \<open>\<^verbatim>\<open>assign sts_trg = sts_run ? sts_rpt : trg;\<close>\<close>

definition sts_trg :: "asg_in \<Rightarrow> asg_state \<Rightarrow> bool" where
  "sts_trg i s = (if sts_run s then sts_rpt s else trg i)"

text \<open>
  \<^verbatim>\<open>assign ptr_nxt = ptr_cur + (cfg_stp + 1);\<close> The operands are zero-extended; the
  result is kept at the 31 bits of \<open>ptr_nxt\<close>.
\<close>

definition ptr_nxt :: "asg_in \<Rightarrow> asg_state \<Rightarrow> 31 word" where
  "ptr_nxt i s = ucast (ptr_cur s) + (ucast (cfg_stp i) + 1)"

text \<open>\<^verbatim>\<open>assign ptr_nxt_sub = ptr_nxt - (cfg_siz + 1);\<close>\<close>

definition ptr_nxt_sub :: "asg_in \<Rightarrow> asg_state \<Rightarrow> 31 word" where
  "ptr_nxt_sub i s = ptr_nxt i s - (ucast (cfg_siz i) + 1)"

text \<open>\<^verbatim>\<open>assign ptr_nxt_sub_neg = ptr_nxt_sub[CWM+CWF];\<close>\<close>

definition ptr_nxt_sub_neg :: "asg_in \<Rightarrow> asg_state \<Rightarrow> bool" where
  "ptr_nxt_sub_neg i s = bit (ptr_nxt_sub i s) 30"

text \<open>The table index \<^verbatim>\<open>ptr_cur[CWF+:CWM]\<close>: the 14 bits above the 16 fraction bits.\<close>

definition ptr_addr :: "30 word \<Rightarrow> 14 word" where
  "ptr_addr p = ucast (drop_bit 16 p)"

subsection \<open>The clocked blocks\<close>

text \<open>
  Each function gives the value a register takes at the clock edge, from the inputs and
  the registers before the edge, block by block in the order of the source.
\<close>

text \<open>CPU write access: \<^verbatim>\<open>if (bus.wen) buf_mem[bus.addr] <= bus.wdata;\<close>\<close>

definition buf_mem_ff :: "asg_in \<Rightarrow> asg_state \<Rightarrow> 14 word \<Rightarrow> 8 word" where
  "buf_mem_ff i s =
     (if bus_wen i then (buf_mem s)(word_of_nat (bus_addr i) := bus_wdata i) else buf_mem s)"

text \<open>CPU read-back access: \<^verbatim>\<open>if (bus.ren) bus.rdata <= buf_mem[bus.addr];\<close>\<close>

definition bus_rdata_ff :: "asg_in \<Rightarrow> asg_state \<Rightarrow> 8 word" where
  "bus_rdata_ff i s =
     (if bus_ren i then buf_mem s (word_of_nat (bus_addr i)) else bus_rdata s)"

text \<open>CPU control signals: the acknowledge.\<close>

definition bus_ack_ff :: "asg_in \<Rightarrow> asg_state \<Rightarrow> bool" where
  "bus_ack_ff i s = (if \<not> bus_rstn i then False else (bus_ren i \<or> bus_wen i))"

text \<open>Stream read: \<^verbatim>\<open>if (sts_run) buf_raddr <= ptr_cur[CWF+:CWM];\<close>\<close>

definition buf_raddr_ff :: "asg_in \<Rightarrow> asg_state \<Rightarrow> 14 word" where
  "buf_raddr_ff i s = (if sts_run s then ptr_addr (ptr_cur s) else buf_raddr s)"

text \<open>Stream read: \<^verbatim>\<open>if (sts_vld) buf_rdata <= buf_mem[buf_raddr];\<close>\<close>

definition buf_rdata_ff :: "asg_in \<Rightarrow> asg_state \<Rightarrow> 8 word" where
  "buf_rdata_ff i s = (if sts_vld s then buf_mem s (buf_raddr s) else buf_rdata s)"

text \<open>The valid signal used to enable the memory read access.\<close>

definition sts_vld_ff :: "asg_in \<Rightarrow> asg_state \<Rightarrow> bool" where
  "sts_vld_ff i s =
     (if \<not> sto_rstn i then False
      else if ctl_rst i then False
      else sts_run s)"

text \<open>The state machine block: the registers \<open>sts_run\<close>, \<open>sts_rdt\<close>, \<open>cnt_bnm\<close>, \<open>cnt_bln\<close>.\<close>

definition sts_run_ff :: "asg_in \<Rightarrow> asg_state \<Rightarrow> bool" where
  "sts_run_ff i s =
     (if \<not> sto_rstn i then False
      else if ctl_rst i then False
      else if cfg_ben i then
        (if sts_trg i s then (if sts_run s then cnt_bnm s \<noteq> 0 else True) else sts_run s)
      else
        (if sts_trg i s then True else sts_run s))"

definition sts_rdt_ff :: "asg_in \<Rightarrow> asg_state \<Rightarrow> bool" where
  "sts_rdt_ff i s =
     (if \<not> sto_rstn i then sts_rdt s
      else if ctl_rst i then sts_rdt s
      else if cfg_ben i then
        (if sts_trg i s then (if sts_run s then cnt_bnm s \<noteq> 0 else True) else sts_rdt s)
      else sts_rdt s)"

definition cnt_bnm_ff :: "asg_in \<Rightarrow> asg_state \<Rightarrow> 16 word" where
  "cnt_bnm_ff i s =
     (if \<not> sto_rstn i then 0
      else if ctl_rst i then 0
      else if cfg_ben i then
        (if sts_trg i s
         then (if sts_run s then cnt_bnm s - (if cfg_inf i then 0 else 1) else cfg_bnm i)
         else cnt_bnm s)
      else cnt_bnm s)"

definition cnt_bln_ff :: "asg_in \<Rightarrow> asg_state \<Rightarrow> 32 word" where
  "cnt_bln_ff i s =
     (if \<not> sto_rstn i then 0
      else if ctl_rst i then 0
      else if cfg_ben i then
        (if sts_trg i s then cfg_bln i
         else cnt_bln s - (if sts_run s then 1 else 0))
      else cnt_bln s)"

text \<open>The read pointer block.\<close>

definition ptr_cur_ff :: "asg_in \<Rightarrow> asg_state \<Rightarrow> 30 word" where
  "ptr_cur_ff i s =
     (if \<not> sto_rstn i then 0
      else if ctl_rst i then 0
      else if sts_trg i s then cfg_off i
      else if sts_run s then
        ucast (if \<not> ptr_nxt_sub_neg i s then ptr_nxt_sub i s else ptr_nxt i s)
      else ptr_cur s)"

text \<open>The trigger output.\<close>

definition trg_o_ff :: "asg_in \<Rightarrow> asg_state \<Rightarrow> bool" where
  "trg_o_ff i s = (if \<not> sto_rstn i then False else sts_trg i s)"

text \<open>The output valid.\<close>

definition sto_vld_ff :: "asg_in \<Rightarrow> asg_state \<Rightarrow> bool" where
  "sto_vld_ff i s =
     (if \<not> sto_rstn i then False
      else if ctl_rst i then False
      else sts_vld s)"

subsection \<open>One clock edge, and runs\<close>

definition asg_step :: "asg_in \<Rightarrow> asg_state \<Rightarrow> asg_state" where
  "asg_step i s =
     \<lparr> buf_mem = buf_mem_ff i s,
       buf_rdata = buf_rdata_ff i s,
       buf_raddr = buf_raddr_ff i s,
       bus_rdata = bus_rdata_ff i s,
       bus_ack = bus_ack_ff i s,
       ptr_cur = ptr_cur_ff i s,
       cnt_bln = cnt_bln_ff i s,
       cnt_bnm = cnt_bnm_ff i s,
       sts_run = sts_run_ff i s,
       sts_rdt = sts_rdt_ff i s,
       sts_vld = sts_vld_ff i s,
       trg_o = trg_o_ff i s,
       sto_vld = sto_vld_ff i s \<rparr>"

text \<open>The module clocked through a list of inputs, one per edge, first input first.\<close>

fun run :: "asg_state \<Rightarrow> asg_in list \<Rightarrow> asg_state" where
  "run s [] = s"
| "run s (i # is) = run (asg_step i s) is"

text \<open>
  The outputs, all of them registered or constant: the stream (\<open>dat\<close>, \<open>vld\<close>, \<open>kep\<close>,
  \<open>lst\<close>), the trigger output and the bus answers (\<open>rdata\<close>, \<open>ack\<close>, \<open>err\<close>). The width
  of \<open>kep\<close> belongs to the stream interface, which is not among the sources; it is all
  ones and is given here as the truth value of each of its bits.
\<close>

record asg_out =
  sto_dat :: "8 word"
  sto_vld_o :: bool
  sto_kep :: bool
  sto_lst :: bool
  trg_o_o :: bool
  bus_rdata_o :: "8 word"
  bus_ack_o :: bool
  bus_err :: bool

definition outputs :: "asg_state \<Rightarrow> asg_out" where
  "outputs s =
     \<lparr> sto_dat = buf_rdata s,
       sto_vld_o = sto_vld s,
       sto_kep = True,
       sto_lst = False,
       trg_o_o = trg_o s,
       bus_rdata_o = bus_rdata s,
       bus_ack_o = bus_ack s,
       bus_err = False \<rparr>"

subsection \<open>Vocabulary of the properties\<close>

text \<open>Neither the stream reset nor the synchronous clear is asserted at this edge.\<close>

definition no_reset :: "asg_in \<Rightarrow> bool" where
  "no_reset i = (sto_rstn i \<and> \<not> ctl_rst i)"

text \<open>
  The phase update in the words of the specification, on numbers: \<open>next\<close> is the sum
  in 31 bits, \<open>reduced\<close> the 31-bit difference, and the new phase is \<open>reduced\<close> when
  \<open>next\<close> is at least \<open>size + 1\<close>, and \<open>next\<close> otherwise, kept at 30 bits.
\<close>

definition spec_phase_step :: "nat \<Rightarrow> nat \<Rightarrow> nat \<Rightarrow> nat" where
  "spec_phase_step cur stp siz =
     (let next = (cur + (stp + 1)) mod 2 ^ 31;
          reduced = (next + 2 ^ 31 - (siz + 1)) mod 2 ^ 31
      in (if siz + 1 \<le> next then reduced else next) mod 2 ^ 30)"

text \<open>
  The value the pointer register takes on an advancing edge, read as a number (lemma
  \<open>unat_ptr_advance\<close> below derives it from the signals \<open>ptr_nxt\<close>, \<open>ptr_nxt_sub\<close> and
  \<open>ptr_nxt_sub_neg\<close>): the difference is taken exactly when it is not negative and its
  bit 30 is clear.
\<close>

definition wrap_nat :: "nat \<Rightarrow> nat \<Rightarrow> nat \<Rightarrow> nat" where
  "wrap_nat cur stp siz =
     (let n = cur + (stp + 1); m = siz + 1
      in if m \<le> n \<and> n - m < 2 ^ 30 then n - m else n mod 2 ^ 30)"

text \<open>
  A run of advancing edges: before every edge the generator is running, no start event
  fires and no reset is asserted, and step and size keep the given values.
\<close>

fun stepping :: "30 word \<Rightarrow> 30 word \<Rightarrow> asg_state \<Rightarrow> asg_in list \<Rightarrow> bool" where
  "stepping stp siz s [] = True"
| "stepping stp siz s (i # is) =
     (sts_run s \<and> \<not> sts_trg i s \<and> no_reset i \<and> cfg_stp i = stp \<and> cfg_siz i = siz
      \<and> stepping stp siz (asg_step i s) is)"

text \<open>
  Periodic mode on a table of ten locations read at unit stride from its start: the
  size register holds \<open>10 * 2^16 - 1\<close>, the step register \<open>2^16 - 1\<close>.
\<close>

definition periodic_cfg :: "asg_in \<Rightarrow> bool" where
  "periodic_cfg i =
     (no_reset i \<and> \<not> cfg_ben i \<and> cfg_siz i = 655359 \<and> cfg_stp i = 65535 \<and> cfg_off i = 0)"

text \<open>Burst mode with a finite number of repetitions and the given counts, no reset.\<close>

definition burst_cfg :: "16 word \<Rightarrow> 32 word \<Rightarrow> asg_in \<Rightarrow> bool" where
  "burst_cfg k l i =
     (no_reset i \<and> cfg_ben i \<and> \<not> cfg_inf i \<and> cfg_bnm i = k \<and> cfg_bln i = l)"

text \<open>The playback configuration keeps the given step, size and offset.\<close>

definition play_cfg :: "30 word \<Rightarrow> 30 word \<Rightarrow> 30 word \<Rightarrow> asg_in \<Rightarrow> bool" where
  "play_cfg stp siz off i = (cfg_stp i = stp \<and> cfg_siz i = siz \<and> cfg_off i = off)"

text \<open>The generator is running before every edge of the run.\<close>

fun running_along :: "asg_state \<Rightarrow> asg_in list \<Rightarrow> bool" where
  "running_along s [] = True"
| "running_along s (i # is) = (sts_run s \<and> running_along (asg_step i s) is)"

text \<open>
  A concrete idle state (every register zero, as after a reset, with an all-zero table)
  and a concrete quiet input (no reset, no trigger, periodic mode, every value zero, the
  trigger mask set), from which the examples below are built by record update.
\<close>

definition idle0 :: asg_state where
  "idle0 = \<lparr> buf_mem = (\<lambda>a. 0), buf_rdata = 0, buf_raddr = 0, bus_rdata = 0, bus_ack = False,
       ptr_cur = 0, cnt_bln = 0, cnt_bnm = 0, sts_run = False, sts_rdt = False,
       sts_vld = False, trg_o = False, sto_vld = False \<rparr>"

definition in0 :: asg_in where
  "in0 = \<lparr> sto_rstn = True, ctl_rst = False, trg_i = 0, cfg_trg = 1,
       cfg_siz = 0, cfg_stp = 0, cfg_off = 0, cfg_ben = False, cfg_inf = False,
       cfg_bdl = 0, cfg_bln = 0, cfg_bnm = 0, bus_rstn = True, bus_wen = False,
       bus_ren = False, bus_addr = 0, bus_wdata = 0 \<rparr>"

text \<open>Burst mode with two repetitions of three edges: the arming input and the quiet one.\<close>

definition ex_burst :: asg_in where
  "ex_burst = in0 \<lparr> cfg_ben := True, cfg_bln := 2, cfg_bnm := 1 \<rparr>"

definition ex_burst_trg :: asg_in where
  "ex_burst_trg = in0 \<lparr> trg_i := 1, cfg_ben := True, cfg_bln := 2, cfg_bnm := 1 \<rparr>"

text \<open>
  Burst mode on the whole table at unit stride with \<open>cfg_bdl = 3\<close>, \<open>cfg_bln = 7\<close> and
  \<open>cfg_bnm = 2\<close>: the quiet input and the arming one.
\<close>

definition ex_b6 :: asg_in where
  "ex_b6 = in0 \<lparr> cfg_siz := 1073741823, cfg_stp := 65535, cfg_ben := True, cfg_bdl := 3,
     cfg_bln := 7, cfg_bnm := 2 \<rparr>"

definition ex_b6_trg :: asg_in where
  "ex_b6_trg = ex_b6 \<lparr> trg_i := 1 \<rparr>"

text \<open>A running state two edges before the end of its burst period.\<close>

definition run0 :: asg_state where
  "run0 = idle0 \<lparr> sts_run := True, cnt_bln := 2 \<rparr>"

text \<open>An idle state whose burst length counter is not zero, as a finished burst leaves it.\<close>

definition idle_b :: asg_state where
  "idle_b = idle0 \<lparr> cnt_bln := 2 \<rparr>"

text \<open>
  Periodic mode on ten locations at unit stride (size register \<open>10 * 2^16 - 1\<close>, step
  register \<open>2^16 - 1\<close>): the quiet input and the arming one.
\<close>

definition ex_per :: asg_in where
  "ex_per = in0 \<lparr> cfg_siz := 655359, cfg_stp := 65535 \<rparr>"

definition ex_per_trg :: asg_in where
  "ex_per_trg = ex_per \<lparr> trg_i := 1 \<rparr>"

text \<open>Periodic mode with the size register at 9 and the step register at 0.\<close>

definition ex_lit :: asg_in where
  "ex_lit = in0 \<lparr> cfg_siz := 9 \<rparr>"

definition ex_lit_trg :: asg_in where
  "ex_lit_trg = ex_lit \<lparr> trg_i := 1 \<rparr>"

section \<open>Basic facts\<close>

lemmas ff_defs = buf_mem_ff_def bus_rdata_ff_def bus_ack_ff_def buf_raddr_ff_def
  buf_rdata_ff_def sts_vld_ff_def sts_run_ff_def sts_rdt_ff_def cnt_bnm_ff_def cnt_bln_ff_def
  ptr_cur_ff_def trg_o_ff_def sto_vld_ff_def

lemmas sig_defs = trg_def sts_rpt_def sts_trg_def ptr_nxt_def ptr_nxt_sub_def
  ptr_nxt_sub_neg_def

lemma replicate_num: "replicate (numeral n) x = x # replicate (pred_numeral n) x"
  by (simp add: numeral_eq_Suc)

lemma run_append: "run s (xs @ ys) = run (run s xs) ys"
  by (induction xs arbitrary: s) simp_all

lemma run_snoc: "run s (xs @ [x]) = asg_step x (run s xs)"
  by (simp add: run_append)

section \<open>The pointer update as arithmetic\<close>

lemma unat_lt_30: "unat (w :: 30 word) < 1073741824"
  using unsigned_less [of w] by simp

lemma unat_ucast_30_31: "unat (ucast (w :: 30 word) :: 31 word) = unat w"
proof -
  have "unat w < 2 ^ 31" using unat_lt_30 [of w] by simp
  then show ?thesis by (simp add: unsigned_ucast_eq take_bit_nat_eq_self)
qed

lemma unat_ucast_31_30: "unat (ucast (w :: 31 word) :: 30 word) = unat w mod 2 ^ 30"
  by (simp add: unsigned_ucast_eq take_bit_eq_mod)

lemma unat_ptr_nxt: "unat (ptr_nxt i s) = unat (ptr_cur s) + (unat (cfg_stp i) + 1)"
  unfolding ptr_nxt_def using unat_lt_30 [of "ptr_cur s"] unat_lt_30 [of "cfg_stp i"]
  by (simp add: unat_word_ariths unat_ucast_30_31)

lemma unat_ptr_nxt_sub:
  "unat (ptr_nxt_sub i s) =
     (if unat (cfg_siz i) + 1 \<le> unat (ptr_nxt i s)
      then unat (ptr_nxt i s) - (unat (cfg_siz i) + 1)
      else 2 ^ 31 + unat (ptr_nxt i s) - (unat (cfg_siz i) + 1))"
proof -
  have d: "unat (ucast (cfg_siz i) + 1 :: 31 word) = unat (cfg_siz i) + 1"
    using unat_lt_30 [of "cfg_siz i"] by (simp add: unat_word_ariths unat_ucast_30_31)
  show ?thesis
    unfolding ptr_nxt_sub_def
    by (simp add: unat_sub_if' d)
qed

lemma bit_30_iff: "bit (w :: 31 word) 30 = (2 ^ 30 \<le> unat w)"
proof -
  have lt: "unat w < 2 ^ 31" using unsigned_less [of w] by simp
  have "bit w 30 = bit (unat w) 30"
    by (simp add: bit_unsigned_iff)
  also have "\<dots> = odd (unat w div 2 ^ 30)"
    by (simp add: bit_iff_odd)
  also have "\<dots> = (2 ^ 30 \<le> unat w)"
  proof (cases "2 ^ 30 \<le> unat w")
    case True
    with lt have "unat w div 2 ^ 30 = 1" by simp
    with True show ?thesis by simp
  next
    case False
    then have "unat w div 2 ^ 30 = 0" by simp
    with False show ?thesis by simp
  qed
  finally show ?thesis .
qed

lemma ptr_nxt_sub_neg_iff:
  "ptr_nxt_sub_neg i s =
     (\<not> (unat (cfg_siz i) + 1 \<le> unat (ptr_nxt i s)
         \<and> unat (ptr_nxt i s) - (unat (cfg_siz i) + 1) < 2 ^ 30))"
  unfolding ptr_nxt_sub_neg_def bit_30_iff unat_ptr_nxt_sub
  using unat_lt_30 [of "cfg_siz i"] unat_lt_30 [of "ptr_cur s"] unat_lt_30 [of "cfg_stp i"]
  by (auto simp: unat_ptr_nxt)

lemma unat_ptr_advance:
  "unat (ucast (if \<not> ptr_nxt_sub_neg i s then ptr_nxt_sub i s else ptr_nxt i s) :: 30 word) =
     wrap_nat (unat (ptr_cur s)) (unat (cfg_stp i)) (unat (cfg_siz i))"
proof (cases "ptr_nxt_sub_neg i s")
  case True
  then show ?thesis
    using ptr_nxt_sub_neg_iff [of i s]
    by (auto simp: unat_ucast_31_30 unat_ptr_nxt wrap_nat_def Let_def)
next
  case False
  then have a: "unat (cfg_siz i) + 1 \<le> unat (ptr_nxt i s)"
    and b: "unat (ptr_nxt i s) - (unat (cfg_siz i) + 1) < 2 ^ 30"
    using ptr_nxt_sub_neg_iff [of i s] by auto
  from False
  have "unat (ucast (if \<not> ptr_nxt_sub_neg i s then ptr_nxt_sub i s else ptr_nxt i s) :: 30 word)
      = unat (ptr_nxt_sub i s) mod 2 ^ 30"
    by (simp add: unat_ucast_31_30)
  also have "\<dots> = unat (ptr_nxt i s) - (unat (cfg_siz i) + 1)"
    using a b by (simp add: unat_ptr_nxt_sub)
  finally show ?thesis
    using a b by (simp add: unat_ptr_nxt wrap_nat_def Let_def)
qed

text \<open>An advancing edge: running, no start event, no reset.\<close>

lemma ptr_cur_advance:
  assumes "sts_run s" "\<not> sts_trg i s" "no_reset i"
  shows "unat (ptr_cur (asg_step i s)) =
     wrap_nat (unat (ptr_cur s)) (unat (cfg_stp i)) (unat (cfg_siz i))"
proof -
  have "ptr_cur (asg_step i s) =
      ucast (if \<not> ptr_nxt_sub_neg i s then ptr_nxt_sub i s else ptr_nxt i s)"
    using assms by (simp add: asg_step_def ptr_cur_ff_def no_reset_def)
  then show ?thesis by (simp only: unat_ptr_advance)
qed

lemma wrap_nat_mod:
  assumes "cur \<le> siz" "stp \<le> siz" "siz < 2 ^ 30"
  shows "wrap_nat cur stp siz = (cur + (stp + 1)) mod (siz + 1)"
proof (cases "siz + 1 \<le> cur + (stp + 1)")
  case True
  have lt: "cur + (stp + 1) - (siz + 1) < siz + 1" using assms by arith
  then have "(cur + (stp + 1)) mod (siz + 1) = cur + (stp + 1) - (siz + 1)"
    using True by (simp add: mod_if)
  moreover have "cur + (stp + 1) - (siz + 1) < 2 ^ 30" using lt assms(3) by arith
  ultimately show ?thesis using True by (simp add: wrap_nat_def Let_def)
next
  case False
  then have "cur + (stp + 1) < 2 ^ 30" using assms(3) by arith
  with False show ?thesis by (simp add: wrap_nat_def Let_def)
qed

lemma wrap_nat_spec:
  assumes "cur < 2 ^ 30" "stp < 2 ^ 30" "siz < 2 ^ 30" "cur + stp < siz + 2 ^ 30"
  shows "wrap_nat cur stp siz = spec_phase_step cur stp siz"
proof -
  have n: "(cur + (stp + 1)) mod 2 ^ 31 = cur + (stp + 1)" using assms by simp
  show ?thesis
  proof (cases "siz + 1 \<le> cur + (stp + 1)")
    case True
    define d where "d = cur + (stp + 1) - (siz + 1)"
    have d: "d < 2 ^ 30" using assms(4) True by (simp add: d_def)
    have "cur + (stp + 1) + 2 ^ 31 - (siz + 1) = d + 2 ^ 31"
      using True by (simp add: d_def)
    then have "(cur + (stp + 1) + 2 ^ 31 - (siz + 1)) mod 2 ^ 31 = (d + 2 ^ 31) mod 2 ^ 31"
      by (rule arg_cong)
    also have "\<dots> = d" using d by simp
    finally have r: "(cur + (stp + 1) + 2 ^ 31 - (siz + 1)) mod 2 ^ 31 = d" .
    have "wrap_nat cur stp siz = d"
      using True d by (simp add: wrap_nat_def Let_def d_def)
    moreover have "spec_phase_step cur stp siz = d"
      using True d n r unfolding spec_phase_step_def Let_def by (simp only: if_True mod_less)
    ultimately show ?thesis by simp
  next
    case False
    then show ?thesis
      using n by (simp add: wrap_nat_def spec_phase_step_def Let_def)
  qed
qed

text \<open>
  Claim C1, as amended. On an edge where the generator is running, no start event fires
  and no reset is asserted, the pointer is updated from \<open>next = ptr_cur + (cfg_stp + 1)\<close>
  and \<open>reduced = next - (cfg_siz + 1)\<close>, both in 31 bits: it becomes \<open>reduced\<close> when bit
  30 of \<open>reduced\<close> is clear, that is when \<open>cfg_siz + 1 \<le> next\<close> and
  \<open>next - (cfg_siz + 1) < 2^30\<close>, and \<open>next\<close> (cut to 30 bits) otherwise. Whenever
  \<open>ptr_cur + cfg_stp < cfg_siz + 2^30\<close>, in particular whenever \<open>ptr_cur \<le> cfg_siz\<close>,
  this is the rule of the specification: \<open>reduced\<close> when \<open>next \<ge> cfg_siz + 1\<close>, and
  \<open>next\<close> otherwise.
\<close>

theorem phase_update:
  assumes "sts_run s" "\<not> sts_trg i s" "no_reset i"
  shows "unat (ptr_cur (asg_step i s)) =
       (let next = unat (ptr_cur s) + (unat (cfg_stp i) + 1); m = unat (cfg_siz i) + 1
        in if m \<le> next \<and> next - m < 2 ^ 30 then next - m else next mod 2 ^ 30)
     \<and> (unat (ptr_cur s) + unat (cfg_stp i) < unat (cfg_siz i) + 2 ^ 30 \<longrightarrow>
          unat (ptr_cur (asg_step i s)) =
            spec_phase_step (unat (ptr_cur s)) (unat (cfg_stp i)) (unat (cfg_siz i)))
     \<and> (ptr_cur s \<le> cfg_siz i \<longrightarrow>
          unat (ptr_cur (asg_step i s)) =
            spec_phase_step (unat (ptr_cur s)) (unat (cfg_stp i)) (unat (cfg_siz i)))"
proof -
  have a: "unat (ptr_cur (asg_step i s)) =
      wrap_nat (unat (ptr_cur s)) (unat (cfg_stp i)) (unat (cfg_siz i))"
    by (rule ptr_cur_advance [OF assms])
  have b: "unat (ptr_cur s) + unat (cfg_stp i) < unat (cfg_siz i) + 2 ^ 30 \<Longrightarrow>
      wrap_nat (unat (ptr_cur s)) (unat (cfg_stp i)) (unat (cfg_siz i)) =
      spec_phase_step (unat (ptr_cur s)) (unat (cfg_stp i)) (unat (cfg_siz i))"
    using wrap_nat_spec [of "unat (ptr_cur s)" "unat (cfg_stp i)" "unat (cfg_siz i)"]
      unat_lt_30 [of "ptr_cur s"] unat_lt_30 [of "cfg_stp i"] unat_lt_30 [of "cfg_siz i"]
    by simp
  have c: "ptr_cur s \<le> cfg_siz i \<Longrightarrow>
      unat (ptr_cur s) + unat (cfg_stp i) < unat (cfg_siz i) + 2 ^ 30"
    using unat_lt_30 [of "cfg_stp i"] by (simp add: word_le_nat_alt)
  show ?thesis using a b c by (simp add: wrap_nat_def)
qed


text \<open>The pointer at the last table position, size 9 and step 0: it wraps to 0.\<close>

theorem phase_update_witness:
  "sts_run (run0 \<lparr> ptr_cur := 9 \<rparr>) \<and> \<not> sts_trg ex_lit (run0 \<lparr> ptr_cur := 9 \<rparr>)
   \<and> no_reset ex_lit \<and> ptr_cur (run0 \<lparr> ptr_cur := 9 \<rparr>) \<le> cfg_siz ex_lit
   \<and> unat (ptr_cur (asg_step ex_lit (run0 \<lparr> ptr_cur := 9 \<rparr>))) = 0
   \<and> spec_phase_step 9 0 9 = 0"
proof -
  have h1: "sts_run (run0 \<lparr> ptr_cur := 9 \<rparr>)" by (simp add: run0_def idle0_def)
  have h2: "\<not> sts_trg ex_lit (run0 \<lparr> ptr_cur := 9 \<rparr>)"
    by (simp add: run0_def idle0_def sts_trg_def sts_rpt_def)
  have h3: "no_reset ex_lit" by (simp add: ex_lit_def in0_def no_reset_def)
  have h4: "ptr_cur (run0 \<lparr> ptr_cur := 9 \<rparr>) \<le> cfg_siz ex_lit"
    by (simp add: run0_def idle0_def ex_lit_def in0_def)
  have v: "unat (ptr_cur (run0 \<lparr> ptr_cur := 9 \<rparr>)) = 9" "unat (cfg_stp ex_lit) = 0"
    "unat (cfg_siz ex_lit) = 9"
    by (simp_all add: run0_def idle0_def ex_lit_def in0_def)
  show ?thesis
    using phase_update [OF h1 h2 h3] h1 h2 h3 h4 by (simp add: v spec_phase_step_def)
qed

text \<open>
  The claim as stated fails where the difference does not fit 30 bits: with the pointer
  and the step at \<open>2^30 - 1\<close> and size 0, \<open>next\<close> is \<open>2^31 - 1\<close>, at least
  \<open>size + 1\<close>, and \<open>reduced\<close> is \<open>2^31 - 2\<close> with bit 30 set; the register takes
  \<open>next\<close> cut to 30 bits, \<open>2^30 - 1\<close>, where the stated rule gives \<open>2^30 - 2\<close>.
\<close>

theorem phase_update_counterexample:
  "sts_run (run0 \<lparr> ptr_cur := 1073741823 \<rparr>)
   \<and> \<not> sts_trg (in0 \<lparr> cfg_stp := 1073741823 \<rparr>) (run0 \<lparr> ptr_cur := 1073741823 \<rparr>)
   \<and> no_reset (in0 \<lparr> cfg_stp := 1073741823 \<rparr>)
   \<and> unat (ptr_cur (asg_step (in0 \<lparr> cfg_stp := 1073741823 \<rparr>) (run0 \<lparr> ptr_cur := 1073741823 \<rparr>)))
       = 1073741823
   \<and> spec_phase_step (unat (ptr_cur (run0 \<lparr> ptr_cur := 1073741823 \<rparr>)))
        (unat (cfg_stp (in0 \<lparr> cfg_stp := 1073741823 \<rparr>)))
        (unat (cfg_siz (in0 \<lparr> cfg_stp := 1073741823 \<rparr>))) = 1073741822"
  by (simp add: asg_step_def ff_defs sig_defs run0_def idle0_def in0_def no_reset_def
      spec_phase_step_def)

section \<open>Repeated advance\<close>

lemma advance_mod:
  assumes "sts_run s" "\<not> sts_trg i s" "no_reset i"
    and "ptr_cur s \<le> cfg_siz i" "cfg_stp i \<le> cfg_siz i"
  shows "unat (ptr_cur (asg_step i s)) =
     (unat (ptr_cur s) + (unat (cfg_stp i) + 1)) mod (unat (cfg_siz i) + 1)"
  using ptr_cur_advance [OF assms(1-3)] assms(4,5) unat_lt_30 [of "cfg_siz i"]
    wrap_nat_mod [of "unat (ptr_cur s)" "unat (cfg_siz i)" "unat (cfg_stp i)"]
  by (simp add: word_le_nat_alt)

lemma advance_le:
  assumes "sts_run s" "\<not> sts_trg i s" "no_reset i"
    and "ptr_cur s \<le> cfg_siz i" "cfg_stp i \<le> cfg_siz i"
  shows "ptr_cur (asg_step i s) \<le> cfg_siz i"
proof -
  have "(unat (ptr_cur s) + (unat (cfg_stp i) + 1)) mod (unat (cfg_siz i) + 1)
      < unat (cfg_siz i) + 1"
    by (rule mod_less_divisor) simp
  then show ?thesis
    using advance_mod [OF assms] by (simp add: word_le_nat_alt)
qed

text \<open>
  Claim C3, as amended. Over \<open>N\<close> advancing edges with step and size fixed, starting
  from a pointer within the table (\<open>ptr_cur \<le> cfg_siz\<close>) and with a step not above the
  size (\<open>cfg_stp \<le> cfg_siz\<close>), the pointer ends at
  \<open>(ptr_cur + N * (cfg_stp + 1)) mod (cfg_siz + 1)\<close>. The modulus is \<open>cfg_siz + 1\<close>,
  the table length in pointer units (that is \<open>L * 2^16\<close> for a table of \<open>L\<close>
  locations), not \<open>(cfg_siz + 1) * 2^16\<close>.
\<close>

theorem frequency_law:
  assumes "stepping stp siz s is" "ptr_cur s \<le> siz" "stp \<le> siz"
  shows "unat (ptr_cur (run s is)) =
     (unat (ptr_cur s) + length is * (unat stp + 1)) mod (unat siz + 1)"
  using assms
proof (induction "is" arbitrary: s)
  case Nil
  then show ?case by (simp add: word_le_nat_alt)
next
  case (Cons i "is")
  from Cons.prems(1) have a: "sts_run s" "\<not> sts_trg i s" "no_reset i"
    and c: "cfg_stp i = stp" "cfg_siz i = siz"
    and rest: "stepping stp siz (asg_step i s) is"
    by simp_all
  have le: "ptr_cur s \<le> cfg_siz i" "cfg_stp i \<le> cfg_siz i"
    using Cons.prems(2,3) c by simp_all
  have one: "unat (ptr_cur (asg_step i s)) =
      (unat (ptr_cur s) + (unat stp + 1)) mod (unat siz + 1)"
    using advance_mod [OF a le] c by simp
  have le': "ptr_cur (asg_step i s) \<le> siz"
    using advance_le [OF a le] c by simp
  have "unat (ptr_cur (run s (i # is))) =
      (unat (ptr_cur (asg_step i s)) + length is * (unat stp + 1)) mod (unat siz + 1)"
    using Cons.IH [OF rest le' Cons.prems(3)] by simp
  also have "\<dots> =
      ((unat (ptr_cur s) + (unat stp + 1)) + length is * (unat stp + 1)) mod (unat siz + 1)"
    unfolding one by (rule mod_add_left_eq)
  finally show ?case by (simp add: algebra_simps)
qed

text \<open>Twelve edges at unit stride over ten locations: the pointer stands at location 2.\<close>

theorem frequency_law_witness:
  "stepping 65535 655359 run0 (replicate 12 ex_per)
   \<and> ptr_cur run0 \<le> 655359 \<and> (65535 :: 30 word) \<le> 655359
   \<and> unat (ptr_cur (run run0 (replicate 12 ex_per))) = 131072"
proof -
  have h1: "stepping 65535 655359 run0 (replicate 12 ex_per)"
    by (simp add: replicate_num asg_step_def ff_defs sig_defs run0_def idle0_def ex_per_def
        in0_def no_reset_def)
  have h2: "ptr_cur run0 \<le> 655359" by (simp add: run0_def idle0_def)
  have h3: "(65535 :: 30 word) \<le> 655359" by simp
  have v: "unat (ptr_cur run0) = 0" by (simp add: run0_def idle0_def)
  show ?thesis
    using frequency_law [OF h1 h2 h3] h1 h2 h3 by (simp add: v)
qed

text \<open>
  The claim as stated fails twice. With size 9 and step 0, ten advancing edges from 0
  bring the pointer back to 0, where the stated modulus \<open>(size + 1) * 2^16\<close> gives
  10. And not every start will do: from the pointer \<open>2^30 - 1\<close> with step \<open>2^30 - 2\<close> and
  size \<open>3 * 2^16 - 1\<close> one edge leaves \<open>2^30 - 2\<close>, which differs from the pointer
  advanced by \<open>step + 1\<close> modulo \<open>size + 1\<close> and modulo \<open>(size + 1) * 2^16\<close> alike.
\<close>

theorem frequency_law_counterexample:
  "stepping 0 9 run0 (replicate 10 ex_lit)
   \<and> unat (ptr_cur (run run0 (replicate 10 ex_lit))) = 0
   \<and> (unat (ptr_cur run0) + 10 * (unat (0 :: 30 word) + 1)) mod ((unat (9 :: 30 word) + 1) * 2 ^ 16)
       = 10
   \<and> stepping 1073741822 196607 (run0 \<lparr> ptr_cur := 1073741823 \<rparr>)
        [in0 \<lparr> cfg_siz := 196607, cfg_stp := 1073741822 \<rparr>]
   \<and> unat (ptr_cur (run (run0 \<lparr> ptr_cur := 1073741823 \<rparr>)
        [in0 \<lparr> cfg_siz := 196607, cfg_stp := 1073741822 \<rparr>])) = 1073741822
   \<and> 1073741822 mod (196607 + 1) = (65534 :: nat)
   \<and> (1073741823 + 1 * (1073741822 + 1)) mod (196607 + 1) = (131070 :: nat)
   \<and> 1073741822 mod ((196607 + 1) * 2 ^ 16) = (1073741822 :: nat)
   \<and> (1073741823 + 1 * (1073741822 + 1)) mod ((196607 + 1) * 2 ^ 16) = (2147483646 :: nat)"
  by (simp add: replicate_num asg_step_def ff_defs sig_defs run0_def idle0_def ex_lit_def
      in0_def no_reset_def)

section \<open>The read address stays inside the table\<close>

lemma unat_ptr_addr: "unat (ptr_addr p) = unat p div 65536"
proof -
  have "unat p div 65536 < 16384" using unat_lt_30 [of p] by simp
  then show ?thesis
    by (simp add: ptr_addr_def unsigned_ucast_eq drop_bit_eq_div unat_div
        take_bit_nat_eq_self)
qed

text \<open>
  Claim C4, as amended. On an advancing edge, for a pointer within the table
  (\<open>ptr_cur \<le> cfg_siz\<close>) and a step not above the size (\<open>cfg_stp \<le> cfg_siz\<close>), the
  new pointer is again at most \<open>cfg_siz\<close>, and the new read address is at most the index
  bits of \<open>cfg_siz\<close> (so at most \<open>cfg_siz\<close> itself). For the whole table,
  \<open>cfg_siz + 1 = 2^30\<close> (that is \<open>2^14\<close> locations), the update is the plain addition
  in the 30 bits of the pointer register, for every pointer and step.
\<close>

theorem wraparound:
  assumes "sts_run s" "\<not> sts_trg i s" "no_reset i"
  shows "(ptr_cur s \<le> cfg_siz i \<and> cfg_stp i \<le> cfg_siz i \<longrightarrow>
            ptr_cur (asg_step i s) \<le> cfg_siz i
          \<and> ptr_addr (ptr_cur (asg_step i s)) \<le> ptr_addr (cfg_siz i))
     \<and> (cfg_siz i = 1073741823 \<longrightarrow> ptr_cur (asg_step i s) = ptr_cur s + (cfg_stp i + 1))"
proof -
  have p1: "ptr_addr (ptr_cur (asg_step i s)) \<le> ptr_addr (cfg_siz i)"
    if "ptr_cur (asg_step i s) \<le> cfg_siz i"
    using that by (simp add: word_le_nat_alt unat_ptr_addr div_le_mono)
  have p2: "ptr_cur (asg_step i s) = ptr_cur s + (cfg_stp i + 1)" if full: "cfg_siz i = 1073741823"
  proof -
    let ?n = "unat (ptr_cur s) + (unat (cfg_stp i) + 1)"
    have lt: "?n < 2 ^ 31" using unat_lt_30 [of "ptr_cur s"] unat_lt_30 [of "cfg_stp i"] by simp
    have "wrap_nat (unat (ptr_cur s)) (unat (cfg_stp i)) 1073741823 = ?n mod 2 ^ 30"
    proof (cases "2 ^ 30 \<le> ?n")
      case True
      then have "?n mod 2 ^ 30 = ?n - 2 ^ 30" using lt by (simp add: mod_if)
      then show ?thesis using True lt by (simp add: wrap_nat_def Let_def)
    next
      case False
      then show ?thesis by (simp add: wrap_nat_def Let_def)
    qed
    then have "unat (ptr_cur (asg_step i s)) = ?n mod 2 ^ 30"
      using ptr_cur_advance [OF assms] full by simp
    also have "\<dots> = unat (ptr_cur s + (cfg_stp i + 1))"
      by (simp add: unat_word_ariths mod_simps)
    finally show ?thesis by (simp add: word_unat_eq_iff)
  qed
  show ?thesis using advance_le [OF assms] p1 p2 by blast
qed


text \<open>
  From the last of ten locations at unit stride the pointer wraps to location 0; on the
  whole table, from the last location it overflows to 0.
\<close>

theorem wraparound_witness:
  "sts_run (run0 \<lparr> ptr_cur := 589824 \<rparr>) \<and> \<not> sts_trg ex_per (run0 \<lparr> ptr_cur := 589824 \<rparr>)
   \<and> no_reset ex_per
   \<and> ptr_cur (run0 \<lparr> ptr_cur := 589824 \<rparr>) \<le> cfg_siz ex_per \<and> cfg_stp ex_per \<le> cfg_siz ex_per
   \<and> ptr_cur (asg_step ex_per (run0 \<lparr> ptr_cur := 589824 \<rparr>)) \<le> 655359
   \<and> ptr_addr (ptr_cur (asg_step ex_per (run0 \<lparr> ptr_cur := 589824 \<rparr>))) \<le> 9
   \<and> sts_run (run0 \<lparr> ptr_cur := 1073676288 \<rparr>) \<and> \<not> sts_trg ex_b6 (run0 \<lparr> ptr_cur := 1073676288 \<rparr>)
   \<and> no_reset ex_b6 \<and> cfg_siz ex_b6 = 1073741823
   \<and> ptr_cur (asg_step ex_b6 (run0 \<lparr> ptr_cur := 1073676288 \<rparr>)) = 0"
proof -
  have a1: "sts_run (run0 \<lparr> ptr_cur := 589824 \<rparr>)" by (simp add: run0_def idle0_def)
  have a2: "\<not> sts_trg ex_per (run0 \<lparr> ptr_cur := 589824 \<rparr>)"
    by (simp add: run0_def idle0_def sts_trg_def sts_rpt_def)
  have a3: "no_reset ex_per" by (simp add: ex_per_def in0_def no_reset_def)
  have a4: "ptr_cur (run0 \<lparr> ptr_cur := 589824 \<rparr>) \<le> cfg_siz ex_per \<and> cfg_stp ex_per \<le> cfg_siz ex_per"
    by (simp add: run0_def idle0_def ex_per_def in0_def)
  have a5: "cfg_siz ex_per = 655359" "ptr_addr 655359 = 9"
    by (simp_all add: ex_per_def in0_def ptr_addr_def)
  have b1: "sts_run (run0 \<lparr> ptr_cur := 1073676288 \<rparr>)" by (simp add: run0_def idle0_def)
  have b2: "\<not> sts_trg ex_b6 (run0 \<lparr> ptr_cur := 1073676288 \<rparr>)"
    by (simp add: run0_def idle0_def sts_trg_def sts_rpt_def)
  have b3: "no_reset ex_b6" by (simp add: ex_b6_def in0_def no_reset_def)
  have b4: "cfg_siz ex_b6 = 1073741823" "cfg_stp ex_b6 = 65535"
    "ptr_cur (run0 \<lparr> ptr_cur := 1073676288 \<rparr>) = 1073676288"
    by (simp_all add: ex_b6_def in0_def run0_def idle0_def)
  show ?thesis
    using wraparound [OF a1 a2 a3] wraparound [OF b1 b2 b3] a1 a2 a3 a4 b1 b2 b3
    by (simp add: a5 b4)
qed

text \<open>
  The claim as stated fails in both parts. With size 0 and step \<open>2^30 - 1\<close> the pointer
  0 is within the table, and one edge takes the read address to 16383. With
  \<open>size + 1 = 2^14\<close> the pointer 16383 wraps to 0, where plain overflow of the 30-bit
  register gives 16384.
\<close>

theorem wraparound_counterexample:
  "sts_run run0 \<and> \<not> sts_trg (in0 \<lparr> cfg_stp := 1073741823 \<rparr>) run0
   \<and> no_reset (in0 \<lparr> cfg_stp := 1073741823 \<rparr>)
   \<and> ptr_cur run0 \<le> cfg_siz (in0 \<lparr> cfg_stp := 1073741823 \<rparr>)
   \<and> cfg_siz (in0 \<lparr> cfg_stp := 1073741823 \<rparr>) = 0
   \<and> ptr_addr (ptr_cur (asg_step (in0 \<lparr> cfg_stp := 1073741823 \<rparr>) run0)) = 16383
   \<and> sts_run (run0 \<lparr> ptr_cur := 16383 \<rparr>)
   \<and> \<not> sts_trg (in0 \<lparr> cfg_siz := 16383 \<rparr>) (run0 \<lparr> ptr_cur := 16383 \<rparr>)
   \<and> ptr_cur (asg_step (in0 \<lparr> cfg_siz := 16383 \<rparr>) (run0 \<lparr> ptr_cur := 16383 \<rparr>)) = 0
   \<and> ptr_cur (run0 \<lparr> ptr_cur := 16383 \<rparr>) + (cfg_stp (in0 \<lparr> cfg_siz := 16383 \<rparr>) + 1) = 16384"
  by (simp add: asg_step_def ff_defs sig_defs run0_def idle0_def in0_def no_reset_def
      ptr_addr_def)

section \<open>Periodic mode: ten locations at unit stride\<close>

lemma periodic_arm:
  assumes "\<not> sts_run s" "trg i" "periodic_cfg i"
  shows "sts_run (asg_step i s) \<and> cnt_bln (asg_step i s) = cnt_bln s
     \<and> ptr_cur (asg_step i s) = 0 \<and> \<not> sts_vld (asg_step i s)"
  using assms
  by (simp add: asg_step_def periodic_cfg_def no_reset_def sts_run_ff_def cnt_bln_ff_def
      ptr_cur_ff_def sts_vld_ff_def sts_trg_def)

lemma periodic_keep:
  assumes "sts_run s" "cnt_bln s \<noteq> 0" "periodic_cfg i"
  shows "\<not> sts_trg i s \<and> sts_run (asg_step i s) \<and> cnt_bln (asg_step i s) = cnt_bln s
     \<and> sts_vld (asg_step i s) \<and> sto_vld (asg_step i s) = sts_vld s
     \<and> buf_raddr (asg_step i s) = ptr_addr (ptr_cur s)"
  using assms
  by (simp add: asg_step_def periodic_cfg_def no_reset_def sts_run_ff_def cnt_bln_ff_def
      sts_vld_ff_def sto_vld_ff_def buf_raddr_ff_def sts_trg_def sts_rpt_def)

lemma ten_wrap: "((a mod 10) * 65536 + 65536) mod 655360 = (Suc a mod 10) * (65536::nat)"
proof -
  have "(a mod 10) * 65536 + 65536 = 65536 * (a mod 10 + 1)" by simp
  also have "\<dots> mod 655360 = 65536 * ((a mod 10 + 1) mod 10)"
    using mult_mod_right [of 65536 "a mod 10 + 1" 10] by simp
  also have "(a mod 10 + 1) mod 10 = Suc a mod 10"
    by (simp add: mod_Suc_eq)
  finally show ?thesis by simp
qed

lemma ptr_addr_ten:
  assumes "unat p = (a mod 10) * 65536"
  shows "ptr_addr p = of_nat (a mod 10)"
proof -
  have "a mod 10 < 16384" using mod_less_divisor [of 10 a] by simp
  then have "unat (of_nat (a mod 10) :: 14 word) = a mod 10"
    by (simp add: unat_of_nat)
  moreover have "unat (ptr_addr p) = a mod 10" using assms by (simp add: unat_ptr_addr)
  ultimately show ?thesis by (simp add: word_unat_eq_iff)
qed

lemma periodic_running:
  assumes idle: "\<not> sts_run s" and bln: "cnt_bln s \<noteq> 0"
    and arm: "trg i0" "periodic_cfg i0" and cfg: "list_all periodic_cfg is"
  shows "sts_run (run s (i0 # is)) \<and> cnt_bln (run s (i0 # is)) = cnt_bln s
     \<and> unat (ptr_cur (run s (i0 # is))) = (length is mod 10) * 65536
     \<and> sts_vld (run s (i0 # is)) = (1 \<le> length is)
     \<and> (1 \<le> length is \<longrightarrow> buf_raddr (run s (i0 # is)) = of_nat ((length is - 1) mod 10))
     \<and> (2 \<le> length is \<longrightarrow> sto_vld (run s (i0 # is)))"
  using cfg
proof (induction "is" rule: rev_induct)
  case Nil
  then show ?case using periodic_arm [OF idle arm] by simp
next
  case (snoc x xs)
  let ?t = "run s (i0 # xs)"
  have cx: "periodic_cfg x" and cxs: "list_all periodic_cfg xs"
    using snoc.prems by simp_all
  from snoc.IH [OF cxs] have run: "sts_run ?t" and cb: "cnt_bln ?t = cnt_bln s"
    and ptr: "unat (ptr_cur ?t) = (length xs mod 10) * 65536"
    and vld: "sts_vld ?t = (1 \<le> length xs)"
    by simp_all
  have nz: "cnt_bln ?t \<noteq> 0" using cb bln by simp
  note keep = periodic_keep [OF run nz cx]
  have nr: "no_reset x" and sz: "cfg_siz x = 655359" and st: "cfg_stp x = 65535"
    using cx by (simp_all add: periodic_cfg_def)
  have le: "ptr_cur ?t \<le> cfg_siz x" "cfg_stp x \<le> cfg_siz x"
    using ptr sz st mod_less_divisor [of 10 "length xs"] by (simp_all add: word_le_nat_alt)
  have "unat (ptr_cur (asg_step x ?t)) = ((length xs mod 10) * 65536 + 65536) mod 655360"
    using advance_mod [OF run _ nr le] keep ptr sz st by simp
  then have ptr': "unat (ptr_cur (asg_step x ?t)) = (Suc (length xs) mod 10) * 65536"
    by (simp only: ten_wrap)
  have step: "run s (i0 # xs @ [x]) = asg_step x ?t"
    using run_snoc [of s "i0 # xs" x] by simp
  show ?case
    using keep ptr' vld cb ptr_addr_ten [OF ptr] step by auto
qed

text \<open>
  Claim C2, as amended. In periodic mode with a table of ten locations read at unit
  stride from its start (\<open>cfg_siz = 10 * 2^16 - 1\<close>, \<open>cfg_stp = 2^16 - 1\<close>,
  \<open>cfg_off = 0\<close>), a trigger taken while idle with a nonzero burst length counter starts
  the generator for good. With the trigger sampled at tick 0, at tick \<open>1 + n\<close> the
  generator is running and the index bits of the pointer are \<open>n mod 10\<close>: the address
  sequence 0, 1, ..., 9, 0, 1, ... of period ten. The read-enable valid \<open>sts_vld\<close> is
  low at tick 1 and high from tick 2 on, the registered read address at tick \<open>2 + n\<close> is
  \<open>n mod 10\<close>, and the stream valid is high from tick 3 on. Nothing is said about an
  idle state whose burst length counter is zero.
\<close>

theorem periodic_example:
  assumes "\<not> sts_run s" "cnt_bln s \<noteq> 0" "trg i0" "periodic_cfg i0" "list_all periodic_cfg is"
  shows "sts_run (run s (i0 # is))
     \<and> ptr_addr (ptr_cur (run s (i0 # is))) = of_nat (length is mod 10)
     \<and> sts_vld (run s (i0 # is)) = (1 \<le> length is)
     \<and> (1 \<le> length is \<longrightarrow> buf_raddr (run s (i0 # is)) = of_nat ((length is - 1) mod 10))
     \<and> (2 \<le> length is \<longrightarrow> sto_vld (run s (i0 # is)))"
  using periodic_running [OF assms] ptr_addr_ten [of "ptr_cur (run s (i0 # is))" "length is"]
  by simp

text \<open>Thirteen edges after the arming edge.\<close>

theorem periodic_example_witness:
  "\<not> sts_run idle_b \<and> cnt_bln idle_b \<noteq> 0 \<and> trg ex_per_trg \<and> periodic_cfg ex_per_trg
   \<and> list_all periodic_cfg (replicate 13 ex_per)
   \<and> sts_run (run idle_b (ex_per_trg # replicate 13 ex_per))
   \<and> ptr_addr (ptr_cur (run idle_b (ex_per_trg # replicate 13 ex_per))) = 3
   \<and> sts_vld (run idle_b (ex_per_trg # replicate 13 ex_per))
   \<and> buf_raddr (run idle_b (ex_per_trg # replicate 13 ex_per)) = 2
   \<and> sto_vld (run idle_b (ex_per_trg # replicate 13 ex_per))"
proof -
  have h1: "\<not> sts_run idle_b" by (simp add: idle_b_def idle0_def)
  have h2: "cnt_bln idle_b \<noteq> 0" by (simp add: idle_b_def idle0_def)
  have h3: "trg ex_per_trg" by (simp add: ex_per_trg_def ex_per_def in0_def trg_def)
  have h4: "periodic_cfg ex_per_trg"
    by (simp add: ex_per_trg_def ex_per_def in0_def periodic_cfg_def no_reset_def)
  have "periodic_cfg ex_per"
    by (simp add: ex_per_def in0_def periodic_cfg_def no_reset_def)
  then have h5: "list_all periodic_cfg (replicate 13 ex_per)"
    by (simp add: list_all_iff)
  show ?thesis
    using periodic_example [OF h1 h2 h3 h4 h5] h1 h2 h3 h4 h5 by simp
qed

text \<open>
  The claim as stated fails. With the registers at the stated values (size 9, step 0)
  the pointer counts 0, 1, 2, 3 in units of \<open>2^-16\<close> of a location, and the read
  address stays 0. And from the idle state left by a reset (burst length counter zero),
  even at unit stride, every edge is a start event: the pointer is reloaded with the
  offset at each edge and the address stays 0 too.
\<close>

theorem periodic_example_counterexample:
  "\<not> sts_run idle_b \<and> trg ex_lit_trg \<and> \<not> cfg_ben ex_lit_trg
   \<and> cfg_siz ex_lit_trg = 9 \<and> cfg_stp ex_lit_trg = 0 \<and> cfg_off ex_lit_trg = 0
   \<and> ptr_cur (run idle_b (ex_lit_trg # replicate 3 ex_lit)) = 3
   \<and> ptr_addr (ptr_cur (run idle_b (ex_lit_trg # replicate 3 ex_lit))) = 0
   \<and> buf_raddr (run idle_b (ex_lit_trg # replicate 4 ex_lit)) = 0
   \<and> \<not> sts_run idle0 \<and> trg ex_per_trg \<and> periodic_cfg ex_per_trg
   \<and> ptr_cur (run idle0 (ex_per_trg # replicate 3 ex_per)) = 0
   \<and> ptr_addr (ptr_cur (run idle0 (ex_per_trg # replicate 3 ex_per))) = 0
   \<and> buf_raddr (run idle0 (ex_per_trg # replicate 4 ex_per)) = 0"
  by (simp add: replicate_num asg_step_def ff_defs sig_defs idle_b_def idle0_def ex_lit_def
      ex_lit_trg_def ex_per_def ex_per_trg_def in0_def periodic_cfg_def no_reset_def
      ptr_addr_def)

section \<open>Burst mode: periods and repetitions\<close>

lemma div_period_end: "(a * (b + 1) + b) div (b + 1) = (a::nat)"
  by (metis add.commute div_mult_self1 div_less lessI Suc_eq_plus1 nat.simps(3) add.right_neutral)

lemma mod_period_end: "(a * (b + 1) + b) mod (b + 1) = (b::nat)"
  by (metis add.commute mod_mult_self1 mod_less lessI Suc_eq_plus1)

text \<open>The four kinds of edge in burst mode: arming, counting, reloading, staying idle.\<close>

lemma burst_arm:
  assumes "\<not> sts_run s" "trg i" "burst_cfg k l i"
  shows "sts_run (asg_step i s) \<and> cnt_bnm (asg_step i s) = k \<and> cnt_bln (asg_step i s) = l
     \<and> ptr_cur (asg_step i s) = cfg_off i"
  using assms
  by (simp add: asg_step_def burst_cfg_def no_reset_def sts_run_ff_def cnt_bnm_ff_def
      cnt_bln_ff_def ptr_cur_ff_def sts_trg_def)

lemma burst_count:
  assumes "sts_run s" "cnt_bln s \<noteq> 0" "burst_cfg k l i"
  shows "sts_run (asg_step i s) \<and> cnt_bnm (asg_step i s) = cnt_bnm s
     \<and> cnt_bln (asg_step i s) = cnt_bln s - 1"
  using assms
  by (simp add: asg_step_def burst_cfg_def no_reset_def sts_run_ff_def cnt_bnm_ff_def
      cnt_bln_ff_def sts_trg_def sts_rpt_def)

lemma burst_reload:
  assumes "sts_run s" "cnt_bln s = 0" "burst_cfg k l i"
  shows "sts_run (asg_step i s) = (cnt_bnm s \<noteq> 0) \<and> cnt_bnm (asg_step i s) = cnt_bnm s - 1
     \<and> cnt_bln (asg_step i s) = l \<and> ptr_cur (asg_step i s) = cfg_off i"
  using assms
  by (simp add: asg_step_def burst_cfg_def no_reset_def sts_run_ff_def cnt_bnm_ff_def
      cnt_bln_ff_def ptr_cur_ff_def sts_trg_def sts_rpt_def)

lemma burst_idle:
  assumes "\<not> sts_run s" "\<not> trg i" "burst_cfg k l i"
  shows "\<not> sts_run (asg_step i s)"
  using assms
  by (simp add: asg_step_def burst_cfg_def no_reset_def sts_run_ff_def sts_trg_def)

text \<open>
  After the arming edge and \<open>n\<close> further edges, with \<open>n\<close> below
  \<open>(cfg_bnm + 1) * (cfg_bln + 1)\<close>, the generator is in period \<open>n div (cfg_bln + 1)\<close>
  at position \<open>n mod (cfg_bln + 1)\<close>, and at position 0 the pointer holds the offset.
\<close>

lemma burst_running:
  assumes idle: "\<not> sts_run s" and arm: "trg i0" "burst_cfg k l i0"
    and cfg: "list_all (burst_cfg k l) is"
    and len: "length is < (unat k + 1) * (unat l + 1)"
  shows "sts_run (run s (i0 # is))
     \<and> unat (cnt_bnm (run s (i0 # is))) = unat k - length is div (unat l + 1)
     \<and> unat (cnt_bln (run s (i0 # is))) = unat l - length is mod (unat l + 1)
     \<and> (length is mod (unat l + 1) = 0 \<longrightarrow> ptr_cur (run s (i0 # is)) = cfg_off (last (i0 # is)))"
  using cfg len
proof (induction "is" rule: rev_induct)
  case Nil
  then show ?case using burst_arm [OF idle arm] by simp
next
  case (snoc x xs)
  let ?t = "run s (i0 # xs)"
  let ?n = "length xs"
  let ?L = "unat l + 1"
  have cx: "burst_cfg k l x" and cxs: "list_all (burst_cfg k l) xs"
    using snoc.prems(1) by simp_all
  have n: "Suc ?n < (unat k + 1) * ?L" using snoc.prems(2) by simp
  then have "?n < (unat k + 1) * ?L" by simp
  with snoc.IH cxs have run: "sts_run ?t"
    and bnm: "unat (cnt_bnm ?t) = unat k - ?n div ?L"
    and bln: "unat (cnt_bln ?t) = unat l - ?n mod ?L"
    by simp_all
  have step: "run s (i0 # xs @ [x]) = asg_step x ?t"
    using run_snoc [of s "i0 # xs" x] by simp
  have ml: "?n mod ?L \<le> unat l"
    using mod_less_divisor [of ?L ?n] by simp
  have dv: "Suc ?n div ?L \<le> unat k"
    using n div_less_iff_less_mult [of ?L "Suc ?n" "unat k + 1"] by simp
  show ?case
  proof (cases "cnt_bln ?t = 0")
    case True
    then have "unat (cnt_bln ?t) = 0" by simp
    with bln ml have e: "?n mod ?L = unat l" by linarith
    then have m0: "Suc ?n mod ?L = 0" by (simp add: mod_Suc)
    then have d1: "Suc ?n div ?L = Suc (?n div ?L)" by (simp add: div_Suc)
    with dv bnm have nz: "unat (cnt_bnm ?t) \<noteq> 0" by simp
    then have nz': "cnt_bnm ?t \<noteq> 0" by auto
    have "unat (cnt_bnm ?t - 1) = unat (cnt_bnm ?t) - 1"
      using nz' by (rule unat_minus_one)
    with bnm d1 have b': "unat (cnt_bnm ?t - 1) = unat k - Suc ?n div ?L" by simp
    show ?thesis
      using burst_reload [OF run True cx] nz' b' m0 step by simp
  next
    case False
    then have nz: "unat (cnt_bln ?t) \<noteq> 0" by (simp add: unat_eq_0)
    with bln have lt: "?n mod ?L < unat l" by simp
    then have m1: "Suc ?n mod ?L = Suc (?n mod ?L)" by (simp add: mod_Suc)
    then have d0: "Suc ?n div ?L = ?n div ?L" by (simp add: div_Suc)
    have "unat (cnt_bln ?t - 1) = unat (cnt_bln ?t) - 1"
      using False by (rule unat_minus_one)
    with bln m1 lt have b': "unat (cnt_bln ?t - 1) = unat l - Suc ?n mod ?L" by simp
    show ?thesis
      using burst_count [OF run False cx] bnm b' d0 m1 step by simp
  qed
qed

text \<open>The edge that ends the last period stops the generator.\<close>

lemma burst_stop:
  assumes idle: "\<not> sts_run s" and arm: "trg i0" "burst_cfg k l i0"
    and cfg: "list_all (burst_cfg k l) is"
    and len: "length is = (unat k + 1) * (unat l + 1)"
  shows "\<not> sts_run (run s (i0 # is))"
proof -
  from len have "is \<noteq> []" by auto
  then obtain xs x where xs: "is = xs @ [x]"
    by (metis rev_exhaust)
  let ?t = "run s (i0 # xs)"
  let ?L = "unat l + 1"
  have cx: "burst_cfg k l x" and cxs: "list_all (burst_cfg k l) xs"
    using cfg xs by simp_all
  have n: "length xs = unat k * ?L + unat l" using len xs by simp
  then have lt: "length xs < (unat k + 1) * ?L" by simp
  have dv: "length xs div ?L = unat k" unfolding n by (rule div_period_end)
  have md: "length xs mod ?L = unat l" unfolding n by (rule mod_period_end)
  from burst_running [OF idle arm cxs lt] dv md
  have run: "sts_run ?t" and bnm: "unat (cnt_bnm ?t) = 0" and bln: "unat (cnt_bln ?t) = 0"
    by simp_all
  from bln have z: "cnt_bln ?t = 0" by (simp add: unat_eq_0)
  from bnm have z': "cnt_bnm ?t = 0" by (simp add: unat_eq_0)
  have "run s (i0 # is) = asg_step x ?t"
    using run_snoc [of s "i0 # xs" x] xs by simp
  then show ?thesis using burst_reload [OF run z cx] z' by simp
qed

lemma burst_stays_idle:
  assumes "\<not> sts_run s" "list_all (\<lambda>i. burst_cfg k l i \<and> \<not> trg i) is"
  shows "\<not> sts_run (run s is)"
  using assms
proof (induction "is" arbitrary: s)
  case Nil
  then show ?case by simp
next
  case (Cons i "is")
  then show ?case using burst_idle [of s i k l] by simp
qed

text \<open>Running holds exactly for the first \<open>(cfg_bnm + 1) * (cfg_bln + 1)\<close> edges.\<close>

lemma burst_run_iff:
  assumes idle: "\<not> sts_run s" and arm: "trg i0" "burst_cfg k l i0"
    and cfg: "list_all (\<lambda>i. burst_cfg k l i \<and> \<not> trg i) is"
  shows "sts_run (run s (i0 # is)) = (length is < (unat k + 1) * (unat l + 1))"
proof (cases "length is < (unat k + 1) * (unat l + 1)")
  case True
  have "list_all (burst_cfg k l) is" using cfg by (simp add: list_all_iff)
  from burst_running [OF idle arm this True] True show ?thesis by simp
next
  case False
  let ?N = "(unat k + 1) * (unat l + 1)"
  have split: "is = take ?N is @ drop ?N is" by simp
  have len: "length (take ?N is) = ?N" using False by simp
  have c1: "list_all (burst_cfg k l) (take ?N is)"
    using cfg by (auto simp: list_all_iff dest: in_set_takeD)
  have c2: "list_all (\<lambda>i. burst_cfg k l i \<and> \<not> trg i) (drop ?N is)"
    using cfg by (auto simp: list_all_iff dest: in_set_dropD)
  have stop: "\<not> sts_run (run s (i0 # take ?N is))"
    by (rule burst_stop [OF idle arm c1 len])
  have "run s (i0 # is) = run (run s (i0 # take ?N is)) (drop ?N is)"
    using run_append [of s "i0 # take ?N is" "drop ?N is"] by simp
  then have "\<not> sts_run (run s (i0 # is))"
    using burst_stays_idle [OF stop c2] by simp
  with False show ?thesis by simp
qed

text \<open>
  Claim C5. In burst mode with \<open>cfg_bnm = k\<close> and \<open>cfg_inf\<close> clear, one trigger taken
  while idle plays exactly \<open>k + 1\<close> periods: after the arming edge and \<open>n\<close> further edges
  without a trigger and without reset the generator is running if and only if
  \<open>n < (k + 1) * (cfg_bln + 1)\<close>; while it runs, \<open>n div (cfg_bln + 1)\<close> periods are
  complete (the repetition counter stands at \<open>k\<close> minus that number) and the length counter
  stands at \<open>cfg_bln - n mod (cfg_bln + 1)\<close>. From then on it stays stopped.
\<close>

theorem burst_repeat_exact:
  assumes "\<not> sts_run s" "trg i0" "burst_cfg k l i0"
    and "list_all (\<lambda>i. burst_cfg k l i \<and> \<not> trg i) is"
  shows "sts_run (run s (i0 # is)) = (length is < (unat k + 1) * (unat l + 1))
     \<and> (length is < (unat k + 1) * (unat l + 1) \<longrightarrow>
          unat (cnt_bnm (run s (i0 # is))) = unat k - length is div (unat l + 1)
        \<and> unat (cnt_bln (run s (i0 # is))) = unat l - length is mod (unat l + 1))"
proof -
  have c: "list_all (burst_cfg k l) is" using assms(4) by (simp add: list_all_iff)
  show ?thesis
    using burst_run_iff [OF assms] burst_running [OF assms(1-3) c] by simp
qed

text \<open>
  With \<open>cfg_bnm = 1\<close> and \<open>cfg_bln = 2\<close>: two periods of three edges. Five edges after
  the arming edge the generator still runs, in its second period at the last position; six
  edges after it, it has stopped.
\<close>

theorem burst_repeat_exact_witness:
  "\<not> sts_run idle0 \<and> trg ex_burst_trg \<and> burst_cfg 1 2 ex_burst_trg
   \<and> list_all (\<lambda>i. burst_cfg 1 2 i \<and> \<not> trg i) (replicate 6 ex_burst)
   \<and> sts_run (run idle0 (ex_burst_trg # replicate 5 ex_burst))
   \<and> unat (cnt_bnm (run idle0 (ex_burst_trg # replicate 5 ex_burst))) = 0
   \<and> unat (cnt_bln (run idle0 (ex_burst_trg # replicate 5 ex_burst))) = 0
   \<and> \<not> sts_run (run idle0 (ex_burst_trg # replicate 6 ex_burst))"
proof -
  have h1: "\<not> sts_run idle0" by (simp add: idle0_def)
  have h2: "trg ex_burst_trg" by (simp add: ex_burst_trg_def in0_def trg_def)
  have h3: "burst_cfg 1 2 ex_burst_trg"
    by (simp add: ex_burst_trg_def in0_def burst_cfg_def no_reset_def)
  have q: "burst_cfg 1 2 ex_burst \<and> \<not> trg ex_burst"
    by (simp add: ex_burst_def in0_def burst_cfg_def no_reset_def trg_def)
  then have h5: "list_all (\<lambda>i. burst_cfg 1 2 i \<and> \<not> trg i) (replicate 5 ex_burst)"
    and h6: "list_all (\<lambda>i. burst_cfg 1 2 i \<and> \<not> trg i) (replicate 6 ex_burst)"
    by (simp_all add: list_all_iff)
  show ?thesis
    using burst_repeat_exact [OF h1 h2 h3 h5] burst_repeat_exact [OF h1 h2 h3 h6] h1 h2 h3 h6
    by simp
qed

text \<open>
  Within a burst period the pointer starts at the offset and advances by the step at every
  edge, wrapping at the table length, for a configuration that keeps offset and step
  within the table.
\<close>

lemma burst_pointer:
  assumes idle: "\<not> sts_run s" and arm: "trg i0" "burst_cfg k l i0"
    and pc0: "play_cfg stp siz off i0"
    and cfg: "list_all (\<lambda>i. burst_cfg k l i \<and> play_cfg stp siz off i) is"
    and len: "length is < (unat k + 1) * (unat l + 1)"
    and le: "off \<le> siz" "stp \<le> siz"
  shows "unat (ptr_cur (run s (i0 # is))) =
     (unat off + (length is mod (unat l + 1)) * (unat stp + 1)) mod (unat siz + 1)"
  using cfg len
proof (induction "is" rule: rev_induct)
  case Nil
  have "ptr_cur (asg_step i0 s) = off"
    using burst_arm [OF idle arm] pc0 by (simp add: play_cfg_def)
  then show ?case using le(1) by (simp add: word_le_nat_alt)
next
  case (snoc x xs)
  let ?t = "run s (i0 # xs)"
  let ?n = "length xs"
  let ?L = "unat l + 1"
  let ?m = "unat siz + 1"
  have cx: "burst_cfg k l x" and px: "play_cfg stp siz off x"
    and cxs: "list_all (\<lambda>i. burst_cfg k l i \<and> play_cfg stp siz off i) xs"
    using snoc.prems(1) by simp_all
  have cxs': "list_all (burst_cfg k l) xs" using cxs by (simp add: list_all_iff)
  have n: "?n < (unat k + 1) * ?L" using snoc.prems(2) by simp
  from burst_running [OF idle arm cxs' n]
  have run: "sts_run ?t" and bln: "unat (cnt_bln ?t) = unat l - ?n mod ?L"
    by simp_all
  have ih: "unat (ptr_cur ?t) = (unat off + (?n mod ?L) * (unat stp + 1)) mod ?m"
    using snoc.IH [OF cxs n] .
  have step: "run s (i0 # xs @ [x]) = asg_step x ?t"
    using run_snoc [of s "i0 # xs" x] by simp
  have ml: "?n mod ?L \<le> unat l"
    using mod_less_divisor [of ?L ?n] by simp
  show ?case
  proof (cases "cnt_bln ?t = 0")
    case True
    then have "unat (cnt_bln ?t) = 0" by simp
    with bln ml have e: "?n mod ?L = unat l" by linarith
    then have m0: "Suc ?n mod ?L = 0" by (simp add: mod_Suc)
    have "ptr_cur (asg_step x ?t) = off"
      using burst_reload [OF run True cx] px by (simp add: play_cfg_def)
    then show ?thesis using m0 step le(1) by (simp add: word_le_nat_alt)
  next
    case False
    then have nz: "unat (cnt_bln ?t) \<noteq> 0" by (simp add: unat_eq_0)
    with bln have lt: "?n mod ?L < unat l" by simp
    then have m1: "Suc ?n mod ?L = Suc (?n mod ?L)" by (simp add: mod_Suc)
    have nt: "\<not> sts_trg x ?t" using run False by (simp add: sts_trg_def sts_rpt_def)
    have nr: "no_reset x" using cx by (simp add: burst_cfg_def)
    have sz: "cfg_siz x = siz" and st: "cfg_stp x = stp" using px by (simp_all add: play_cfg_def)
    have "unat (ptr_cur ?t) < ?m" unfolding ih by (rule mod_less_divisor) simp
    then have pl: "ptr_cur ?t \<le> cfg_siz x" using sz by (simp add: word_le_nat_alt)
    have sl: "cfg_stp x \<le> cfg_siz x" using le(2) sz st by simp
    have "unat (ptr_cur (asg_step x ?t)) = (unat (ptr_cur ?t) + (unat stp + 1)) mod ?m"
      using advance_mod [OF run nt nr pl sl] sz st by simp
    also have "\<dots> = ((unat off + (?n mod ?L) * (unat stp + 1)) + (unat stp + 1)) mod ?m"
      unfolding ih by (rule mod_add_left_eq)
    also have "\<dots> = (unat off + Suc (?n mod ?L) * (unat stp + 1)) mod ?m"
      by (simp add: algebra_simps)
    finally show ?thesis using m1 step by simp
  qed
qed

text \<open>
  Claim C6, as amended. In burst mode with \<open>cfg_bdl = 3\<close>, \<open>cfg_bln = 7\<close>,
  \<open>cfg_bnm = 2\<close> and one trigger taken while idle, the generator plays three periods of
  eight edges each (\<open>cfg_bln + 1\<close>, not seven): \<open>n\<close> edges after the arming edge it is
  running if and only if \<open>n < 24\<close>; while it runs the length counter stands at
  \<open>7 - n mod 8\<close> and the repetition counter at \<open>2 - n div 8\<close>. On the first four
  ticks of each period the read address advances: the pointer starts at the offset at the
  first tick (\<open>n\<close> = 0, 8, 16) and stands at
  \<open>(cfg_off + p * (cfg_stp + 1)) mod (cfg_siz + 1)\<close> at position \<open>p = n mod 8\<close> for
  \<open>p \<le> 3\<close>, the read address being its index bits, for step, size and offset that stay
  fixed with offset and step within the table. The remaining four ticks of a period are
  left open.
\<close>

theorem burst_example:
  assumes "\<not> sts_run s" "trg i0" "burst_cfg 2 7 i0" "cfg_bdl i0 = 3" "play_cfg stp siz off i0"
    and "list_all (\<lambda>i. burst_cfg 2 7 i \<and> cfg_bdl i = 3 \<and> play_cfg stp siz off i \<and> \<not> trg i) is"
    and "off \<le> siz" "stp \<le> siz"
  shows "sts_run (run s (i0 # is)) = (length is < 24)
     \<and> (length is < 24 \<longrightarrow>
          unat (cnt_bnm (run s (i0 # is))) = 2 - length is div 8
        \<and> unat (cnt_bln (run s (i0 # is))) = 7 - length is mod 8)
     \<and> (length is \<in> {0, 8, 16} \<longrightarrow> ptr_cur (run s (i0 # is)) = off)
     \<and> (length is < 24 \<and> length is mod 8 \<le> 3 \<longrightarrow>
          unat (ptr_cur (run s (i0 # is))) =
            (unat off + (length is mod 8) * (unat stp + 1)) mod (unat siz + 1)
        \<and> unat (ptr_addr (ptr_cur (run s (i0 # is)))) =
            ((unat off + (length is mod 8) * (unat stp + 1)) mod (unat siz + 1)) div 65536)"
proof -
  have c: "list_all (\<lambda>i. burst_cfg 2 7 i \<and> \<not> trg i) is"
    using assms(6) by (simp add: list_all_iff)
  have c': "list_all (burst_cfg 2 7) is"
    using assms(6) by (simp add: list_all_iff)
  have c'': "list_all (\<lambda>i. burst_cfg 2 7 i \<and> play_cfg stp siz off i) is"
    using assms(6) by (simp add: list_all_iff)
  have off: "cfg_off (last (i0 # is)) = off"
  proof (cases "is = []")
    case True
    then show ?thesis using assms(5) by (simp add: play_cfg_def)
  next
    case False
    then have "last is \<in> set is" by simp
    then have "play_cfg stp siz off (last is)" using assms(6) by (simp add: list_all_iff)
    then show ?thesis using False by (simp add: play_cfg_def)
  qed
  have iff: "sts_run (run s (i0 # is)) = (length is < 24)"
    using burst_run_iff [OF assms(1-3) c] by simp
  have inv: "length is < 24 \<Longrightarrow>
      unat (cnt_bnm (run s (i0 # is))) = 2 - length is div 8
    \<and> unat (cnt_bln (run s (i0 # is))) = 7 - length is mod 8
    \<and> (length is mod 8 = 0 \<longrightarrow> ptr_cur (run s (i0 # is)) = cfg_off (last (i0 # is)))"
    using burst_running [OF assms(1-3) c'] by simp
  have start: "length is \<in> {0, 8, 16} \<Longrightarrow> ptr_cur (run s (i0 # is)) = off"
    using inv off by auto
  have ptr: "length is < 24 \<Longrightarrow>
      unat (ptr_cur (run s (i0 # is))) =
        (unat off + (length is mod 8) * (unat stp + 1)) mod (unat siz + 1)"
    using burst_pointer [OF assms(1-3) assms(5) c'' _ assms(7,8)] by simp
  show ?thesis using iff inv start ptr by (simp add: unat_ptr_addr)
qed

text \<open>
  On the whole table at unit stride from offset 0: eight edges after the arming edge the
  second period starts at the offset, and two edges later the read address is 2.
\<close>

theorem burst_example_witness:
  "\<not> sts_run idle0 \<and> trg ex_b6_trg \<and> burst_cfg 2 7 ex_b6_trg \<and> cfg_bdl ex_b6_trg = 3
   \<and> play_cfg 65535 1073741823 0 ex_b6_trg
   \<and> list_all (\<lambda>i. burst_cfg 2 7 i \<and> cfg_bdl i = 3 \<and> play_cfg 65535 1073741823 0 i \<and> \<not> trg i)
        (replicate 10 ex_b6)
   \<and> (0 :: 30 word) \<le> 1073741823 \<and> (65535 :: 30 word) \<le> 1073741823
   \<and> sts_run (run idle0 (ex_b6_trg # replicate 8 ex_b6))
   \<and> unat (cnt_bnm (run idle0 (ex_b6_trg # replicate 8 ex_b6))) = 1
   \<and> unat (cnt_bln (run idle0 (ex_b6_trg # replicate 8 ex_b6))) = 7
   \<and> ptr_cur (run idle0 (ex_b6_trg # replicate 8 ex_b6)) = 0
   \<and> sts_run (run idle0 (ex_b6_trg # replicate 10 ex_b6))
   \<and> unat (ptr_cur (run idle0 (ex_b6_trg # replicate 10 ex_b6))) = 131072
   \<and> unat (ptr_addr (ptr_cur (run idle0 (ex_b6_trg # replicate 10 ex_b6)))) = 2"
proof -
  have h1: "\<not> sts_run idle0" by (simp add: idle0_def)
  have h2: "trg ex_b6_trg" by (simp add: ex_b6_trg_def ex_b6_def in0_def trg_def)
  have h3: "burst_cfg 2 7 ex_b6_trg"
    by (simp add: ex_b6_trg_def ex_b6_def in0_def burst_cfg_def no_reset_def)
  have h4: "cfg_bdl ex_b6_trg = 3" by (simp add: ex_b6_trg_def ex_b6_def in0_def)
  have h5: "play_cfg 65535 1073741823 0 ex_b6_trg"
    by (simp add: ex_b6_trg_def ex_b6_def in0_def play_cfg_def)
  have q: "burst_cfg 2 7 ex_b6 \<and> cfg_bdl ex_b6 = 3 \<and> play_cfg 65535 1073741823 0 ex_b6
      \<and> \<not> trg ex_b6"
    by (simp add: ex_b6_def in0_def burst_cfg_def no_reset_def trg_def play_cfg_def)
  then have h6: "list_all (\<lambda>i. burst_cfg 2 7 i \<and> cfg_bdl i = 3
        \<and> play_cfg 65535 1073741823 0 i \<and> \<not> trg i) (replicate 8 ex_b6)"
    and h6': "list_all (\<lambda>i. burst_cfg 2 7 i \<and> cfg_bdl i = 3
        \<and> play_cfg 65535 1073741823 0 i \<and> \<not> trg i) (replicate 10 ex_b6)"
    by (simp_all add: list_all_iff)
  have h7: "(0 :: 30 word) \<le> 1073741823" by simp
  have h8: "(65535 :: 30 word) \<le> 1073741823" by simp
  show ?thesis
    using burst_example [OF h1 h2 h3 h4 h5 h6 h7 h8] burst_example [OF h1 h2 h3 h4 h5 h6' h7 h8]
      h1 h2 h3 h4 h5 h6' h7 h8
    by simp
qed

text \<open>
  The claim as stated fails on the all-zero idle state with the table read at unit
  stride. Counting edges after the arming edge: the address is 3 after three edges and 4
  after four (the fifth tick of the period still advances); after seven edges it is 7 (the
  first period has not ended after seven ticks); and the generator is still running 21 and
  23 edges after the arming edge, beyond three periods of seven ticks.
\<close>

theorem burst_example_counterexample:
  "cfg_bdl ex_b6_trg = 3 \<and> cfg_bln ex_b6_trg = 7 \<and> cfg_bnm ex_b6_trg = 2
   \<and> ptr_addr (ptr_cur (run idle0 (ex_b6_trg # replicate 3 ex_b6))) = 3
   \<and> ptr_addr (ptr_cur (run idle0 (ex_b6_trg # replicate 4 ex_b6))) = 4
   \<and> ptr_addr (ptr_cur (run idle0 (ex_b6_trg # replicate 7 ex_b6))) = 7
   \<and> sts_run (run idle0 (ex_b6_trg # replicate 21 ex_b6))
   \<and> sts_run (run idle0 (ex_b6_trg # replicate 23 ex_b6))"
  by (simp add: replicate_num asg_step_def ff_defs sig_defs ex_b6_def ex_b6_trg_def in0_def
      idle0_def ptr_addr_def)

section \<open>Triggers while running\<close>

lemma step_trg_irrelevant:
  "sts_run s \<Longrightarrow> asg_step (i \<lparr> trg_i := t, cfg_trg := m \<rparr>) s = asg_step i s"
  by (simp add: asg_step_def ff_defs sig_defs)

text \<open>
  Claim C7. While the generator is running, the trigger lines do not reach any register:
  take a run through which the generator is running before every edge, and replace at
  every edge the trigger lines and the trigger mask by arbitrary values; after any number
  of edges the two runs are in the same state, pointer, both counters and the running flag
  included. This holds on every edge of the run, the period boundaries among them.
\<close>

theorem no_preemption:
  assumes "running_along s is" "length ts = length is"
  shows "run s (take n (map2 (\<lambda>i (t, m). i \<lparr> trg_i := t, cfg_trg := m \<rparr>) is ts))
     = run s (take n is)"
  using assms
proof (induction "is" arbitrary: s ts n)
  case Nil
  then show ?case by simp
next
  case (Cons i "is")
  then obtain p ps where ts: "ts = p # ps" by (cases ts) auto
  obtain t m where p: "p = (t, m)" by (cases p)
  show ?case
  proof (cases n)
    case 0
    then show ?thesis by simp
  next
    case (Suc n')
    have "run (asg_step i s) (take n' (map2 (\<lambda>i (t, m). i \<lparr> trg_i := t, cfg_trg := m \<rparr>) is ps))
        = run (asg_step i s) (take n' is)"
      using Cons.IH [of "asg_step i s" ps n'] Cons.prems ts by simp
    then show ?thesis
      using Cons.prems(1) ts p Suc by (simp add: step_trg_irrelevant)
  qed
qed

text \<open>
  Three edges in burst mode from a running state, the last of them the period boundary,
  against the same three edges with the trigger line raised at each.
\<close>

theorem no_preemption_witness:
  "running_along run0 [ex_burst, ex_burst, ex_burst]
   \<and> length [(1, 1), (1, 1), (1, 1 :: 1 word) :: 1 word \<times> 1 word] = length [ex_burst, ex_burst, ex_burst]
   \<and> run run0 (take 3 (map2 (\<lambda>i (t, m). i \<lparr> trg_i := t, cfg_trg := m \<rparr>)
        [ex_burst, ex_burst, ex_burst] [(1, 1), (1, 1), (1, 1)]))
     = run run0 (take 3 [ex_burst, ex_burst, ex_burst])"
proof -
  have h: "running_along run0 [ex_burst, ex_burst, ex_burst]"
    by (simp add: run0_def idle0_def ex_burst_def in0_def asg_step_def ff_defs sig_defs)
  show ?thesis
    using no_preemption [OF h, of "[(1, 1), (1, 1), (1, 1)]" 3] h by simp
qed

section \<open>The synchronous clear\<close>

text \<open>
  Claim C8, as amended. An edge with \<open>ctl_rst\<close> asserted leaves both valid flags and
  the running flag false and both burst counters and the pointer zero, whatever the state
  and the other inputs, a start event at the same edge included. An edge with the stream
  reset asserted (\<open>sto_rstn\<close> low) does the same and also leaves the trigger output low.
\<close>

theorem reset_priority:
  "(ctl_rst i \<longrightarrow>
       \<not> sts_vld (asg_step i s) \<and> \<not> sto_vld (asg_step i s) \<and> \<not> sts_run (asg_step i s)
     \<and> cnt_bln (asg_step i s) = 0 \<and> cnt_bnm (asg_step i s) = 0 \<and> ptr_cur (asg_step i s) = 0)
   \<and> (\<not> sto_rstn i \<longrightarrow>
       \<not> sts_vld (asg_step i s) \<and> \<not> sto_vld (asg_step i s) \<and> \<not> sts_run (asg_step i s)
     \<and> cnt_bln (asg_step i s) = 0 \<and> cnt_bnm (asg_step i s) = 0 \<and> ptr_cur (asg_step i s) = 0
     \<and> \<not> trg_o (asg_step i s))"
  by (simp add: asg_step_def ff_defs)

text \<open>
  A running state at a period boundary (so that a start event fires), cleared by
  \<open>ctl_rst\<close>; and the same state under the stream reset.
\<close>

theorem reset_priority_witness:
  "ctl_rst (ex_burst \<lparr> ctl_rst := True \<rparr>)
   \<and> sts_trg (ex_burst \<lparr> ctl_rst := True \<rparr>) (run0 \<lparr> cnt_bln := 0, cnt_bnm := 4 \<rparr>)
   \<and> \<not> sts_run (asg_step (ex_burst \<lparr> ctl_rst := True \<rparr>) (run0 \<lparr> cnt_bln := 0, cnt_bnm := 4 \<rparr>))
   \<and> cnt_bnm (asg_step (ex_burst \<lparr> ctl_rst := True \<rparr>) (run0 \<lparr> cnt_bln := 0, cnt_bnm := 4 \<rparr>)) = 0
   \<and> \<not> sto_rstn (ex_burst \<lparr> sto_rstn := False \<rparr>)
   \<and> sts_trg (ex_burst \<lparr> sto_rstn := False \<rparr>) (run0 \<lparr> cnt_bln := 0, cnt_bnm := 4 \<rparr>)
   \<and> \<not> sts_run (asg_step (ex_burst \<lparr> sto_rstn := False \<rparr>) (run0 \<lparr> cnt_bln := 0, cnt_bnm := 4 \<rparr>))
   \<and> \<not> trg_o (asg_step (ex_burst \<lparr> sto_rstn := False \<rparr>) (run0 \<lparr> cnt_bln := 0, cnt_bnm := 4 \<rparr>))"
  using
    reset_priority [of "ex_burst \<lparr> ctl_rst := True \<rparr>" "run0 \<lparr> cnt_bln := 0, cnt_bnm := 4 \<rparr>"]
    reset_priority [of "ex_burst \<lparr> sto_rstn := False \<rparr>" "run0 \<lparr> cnt_bln := 0, cnt_bnm := 4 \<rparr>"]
  by (simp add: ex_burst_def in0_def run0_def idle0_def sts_trg_def sts_rpt_def)

text \<open>
  The claim as stated fails for the trigger output: with \<open>ctl_rst\<close> asserted (and the
  stream reset not) at an edge where a trigger arrives in the idle state, the trigger
  output is high after the edge.
\<close>

theorem reset_priority_counterexample:
  "ctl_rst (in0 \<lparr> ctl_rst := True, trg_i := 1 \<rparr>)
   \<and> sto_rstn (in0 \<lparr> ctl_rst := True, trg_i := 1 \<rparr>)
   \<and> trg_o (asg_step (in0 \<lparr> ctl_rst := True, trg_i := 1 \<rparr>) idle0)"
  by (simp add: asg_step_def ff_defs sig_defs in0_def idle0_def)

section \<open>The valid pipeline\<close>

text \<open>
  Claim C9, as amended. Outside reset, the read-enable flag \<open>sts_vld\<close> after an edge is
  the running flag before it, and the stream valid \<open>sto.vld\<close> after an edge is
  \<open>sts_vld\<close> before it: the stream valid follows the running flag by two edges, not
  one. The read address register takes the index bits of the pointer when the generator
  is running, and the stream data after an edge is the table sample at the registered read
  address before the edge when \<open>sts_vld\<close> held there (otherwise it keeps its value).
\<close>

theorem valid_pipeline:
  assumes "no_reset i" "no_reset j"
  shows "sts_vld (asg_step i s) = sts_run s
     \<and> sto_vld (asg_step i s) = sts_vld s
     \<and> sto_vld (asg_step j (asg_step i s)) = sts_run s
     \<and> buf_raddr (asg_step i s) = (if sts_run s then ptr_addr (ptr_cur s) else buf_raddr s)
     \<and> sto_dat (outputs (asg_step i s)) =
         (if sts_vld s then buf_mem s (buf_raddr s) else sto_dat (outputs s))"
  using assms by (simp add: asg_step_def ff_defs no_reset_def outputs_def)

theorem valid_pipeline_witness:
  "no_reset ex_burst \<and> sts_run run0
   \<and> sts_vld (asg_step ex_burst run0)
   \<and> sto_vld (asg_step ex_burst (asg_step ex_burst run0))"
  using valid_pipeline [of ex_burst ex_burst run0]
  by (simp add: ex_burst_def in0_def run0_def idle0_def no_reset_def)

text \<open>
  The claim as stated fails: from a running state whose \<open>sts_vld\<close> is still low, one
  edge outside reset leaves the stream valid low although the generator was running.
\<close>

theorem valid_pipeline_counterexample:
  "no_reset ex_burst \<and> sts_run run0 \<and> \<not> sto_vld (asg_step ex_burst run0)"
  by (simp add: asg_step_def ff_defs ex_burst_def in0_def run0_def idle0_def no_reset_def)

section \<open>The burst data length\<close>

lemma step_cfg_bdl_irrelevant: "asg_step (i \<lparr> cfg_bdl := b \<rparr>) s = asg_step i s"
  by (simp add: asg_step_def ff_defs sig_defs)

text \<open>
  Claim C10. The input \<open>cfg_bdl\<close> reaches no register and no output: two runs from the
  same state whose inputs agree at every edge in everything but \<open>cfg_bdl\<close> are, after
  any number of edges, in the same state and show the same outputs.
\<close>

theorem cfg_bdl_unused:
  assumes "list_all2 (\<lambda>i j. j = i \<lparr> cfg_bdl := cfg_bdl j \<rparr>) is js"
  shows "run s (take n js) = run s (take n is)
     \<and> outputs (run s (take n js)) = outputs (run s (take n is))"
proof -
  from assms have "run s (take n js) = run s (take n is)"
  proof (induction arbitrary: s n rule: list_all2_induct)
    case Nil
    then show ?case by simp
  next
    case (Cons i "is" j js)
    show ?case
    proof (cases n)
      case 0
      then show ?thesis by simp
    next
      case (Suc n')
      have "asg_step j s = asg_step i s"
        using Cons.hyps(1) step_cfg_bdl_irrelevant [where i = i and b = "cfg_bdl j" and s = s]
        by simp
      then show ?thesis using Cons.IH [of "asg_step i s" n'] Suc by simp
    qed
  qed
  then show ?thesis by simp
qed

theorem cfg_bdl_unused_witness:
  "list_all2 (\<lambda>i j. j = i \<lparr> cfg_bdl := cfg_bdl j \<rparr>)
     [ex_b6_trg, ex_b6, ex_b6]
     [ex_b6_trg \<lparr> cfg_bdl := 0 \<rparr>, ex_b6 \<lparr> cfg_bdl := 7 \<rparr>, ex_b6 \<lparr> cfg_bdl := 16383 \<rparr>]
   \<and> run idle0 (take 3 [ex_b6_trg \<lparr> cfg_bdl := 0 \<rparr>, ex_b6 \<lparr> cfg_bdl := 7 \<rparr>,
        ex_b6 \<lparr> cfg_bdl := 16383 \<rparr>])
     = run idle0 (take 3 [ex_b6_trg, ex_b6, ex_b6])"
proof -
  have h: "list_all2 (\<lambda>i j. j = i \<lparr> cfg_bdl := cfg_bdl j \<rparr>)
     [ex_b6_trg, ex_b6, ex_b6]
     [ex_b6_trg \<lparr> cfg_bdl := 0 \<rparr>, ex_b6 \<lparr> cfg_bdl := 7 \<rparr>, ex_b6 \<lparr> cfg_bdl := 16383 \<rparr>]"
    by simp
  show ?thesis
    using cfg_bdl_unused [OF h, of idle0 3] h by simp
qed

end
